theory Spec2Isabelle
  imports Complex_Main "HOL-Library.Multiset"
begin

unbundle bit_operations_syntax

section \<open>Fragment length model of \<^verbatim>\<open>utilities/compute_fraglen.py\<close>\<close>

subsection \<open>Python values and exceptions\<close>

text \<open>
  The functions of the file work on Python numbers: an \<^verbatim>\<open>int\<close> is unbounded, a
  \<^verbatim>\<open>float\<close> appears as soon as \<^verbatim>\<open>/\<close> is used. The tag keeps the two apart
  (\<^verbatim>\<open>median([2])\<close> is the int 2, \<^verbatim>\<open>median([0,2])\<close> is the float 1.0). A float is
  held as the exact rational it stands for: rounding and overflow of the 64-bit
  representation are outside this model.
\<close>

datatype pynum = PyInt int | PyFloat rat

datatype py_exc = IndexError | ZeroDivisionError | SystemExit int

fun num_val :: "pynum \<Rightarrow> rat" where
  "num_val (PyInt i) = of_int i"
| "num_val (PyFloat q) = q"

fun py_add :: "pynum \<Rightarrow> pynum \<Rightarrow> pynum" where
  "py_add (PyInt a) (PyInt b) = PyInt (a + b)"
| "py_add a b = PyFloat (num_val a + num_val b)"

fun py_sub :: "pynum \<Rightarrow> pynum \<Rightarrow> pynum" where
  "py_sub (PyInt a) (PyInt b) = PyInt (a - b)"
| "py_sub a b = PyFloat (num_val a - num_val b)"

fun py_mul :: "pynum \<Rightarrow> pynum \<Rightarrow> pynum" where
  "py_mul (PyInt a) (PyInt b) = PyInt (a * b)"
| "py_mul a b = PyFloat (num_val a * num_val b)"

fun py_abs :: "pynum \<Rightarrow> pynum" where
  "py_abs (PyInt a) = PyInt \<bar>a\<bar>"
| "py_abs (PyFloat q) = PyFloat \<bar>q\<bar>"

text \<open>True division \<^verbatim>\<open>a / b\<close>: always a float, and an exception on a zero divisor.\<close>

definition py_truediv :: "pynum \<Rightarrow> pynum \<Rightarrow> py_exc + pynum" where
  "py_truediv a b =
     (if num_val b = 0 then Inl ZeroDivisionError else Inr (PyFloat (num_val a / num_val b)))"

definition py_lt :: "pynum \<Rightarrow> pynum \<Rightarrow> bool" where
  "py_lt a b = (num_val a < num_val b)"

definition py_le :: "pynum \<Rightarrow> pynum \<Rightarrow> bool" where
  "py_le a b = (num_val a \<le> num_val b)"

text \<open>
  Subscription \<^verbatim>\<open>xs[i]\<close> of a list. An index from \<open>0\<close> up to the length reads from
  the front, an index from minus the length up to \<open>-1\<close> reads from the back, and every
  other index raises \<^verbatim>\<open>IndexError\<close>.
\<close>

definition py_getitem :: "'a list \<Rightarrow> int \<Rightarrow> py_exc + 'a" where
  "py_getitem xs i =
     (if 0 \<le> i \<and> i < int (length xs) then Inr (xs ! nat i)
      else if i < 0 \<and> - int (length xs) \<le> i then Inr (xs ! nat (int (length xs) + i))
      else Inl IndexError)"

text \<open>\<^verbatim>\<open>sorted(xs)\<close> on numbers: a stable sort by numeric value.\<close>

definition py_sorted :: "pynum list \<Rightarrow> pynum list" where
  "py_sorted xs = sort_key num_val xs"

text \<open>A list comprehension \<^verbatim>\<open>[f(n) for n in xs]\<close> whose body may raise.\<close>

fun list_comp :: "('a \<Rightarrow> py_exc + 'b) \<Rightarrow> 'a list \<Rightarrow> py_exc + 'b list" where
  "list_comp f [] = Inr []"
| "list_comp f (x # xs) =
     (case f x of
        Inl e \<Rightarrow> Inl e
      | Inr y \<Rightarrow> (case list_comp f xs of Inl e \<Rightarrow> Inl e | Inr ys \<Rightarrow> Inr (y # ys)))"

subsection \<open>The robust statistics: \<^verbatim>\<open>median\<close> and \<^verbatim>\<open>median_absolute_deviation\<close>\<close>

text \<open>
  \<^verbatim>\<open>midpoint = len(datalist)//2\<close>; for an even length the operands of the sum are read
  left to right, \<^verbatim>\<open>datalist[midpoint]\<close> first.
\<close>

definition median :: "pynum list \<Rightarrow> py_exc + pynum" where
  "median datalist =
     (let midpoint = int (length datalist) div 2 in
      if int (length datalist) mod 2 = 0 then
        (case py_getitem datalist midpoint of
           Inl e \<Rightarrow> Inl e
         | Inr a \<Rightarrow>
             (case py_getitem datalist (midpoint - 1) of
                Inl e \<Rightarrow> Inl e
              | Inr b \<Rightarrow> py_truediv (py_add a b) (PyInt 2)))
      else py_getitem datalist midpoint)"

definition median_absolute_deviation :: "pynum list \<Rightarrow> py_exc + pynum" where
  "median_absolute_deviation datalist =
     (case median datalist of
        Inl e \<Rightarrow> Inl e
      | Inr my_median \<Rightarrow>
          (let deviations =
                 fold (\<lambda>item deviations. deviations @ [py_abs (py_sub item my_median)])
                   datalist []
           in median (py_sorted deviations)))"

subsection \<open>The record filter: \<^verbatim>\<open>count_frags\<close>\<close>

text \<open>
  The fields of an alignment record that the filter reads. The reference ids are kept as
  Python values, since the code compares \<^verbatim>\<open>next_reference_id\<close> with the string
  \<^verbatim>\<open>'='\<close> as well as with \<^verbatim>\<open>reference_id\<close>.
\<close>

datatype py_val = IntV int | StrV string

record alignment =
  flag :: int
  mapping_quality :: int
  reference_id :: py_val
  next_reference_id :: py_val
  template_length :: int

text \<open>
  What \<^verbatim>\<open>pysam.AlignmentFile(file, 'rb')\<close> gives: a \<^verbatim>\<open>ValueError\<close>, or a handle whose
  \<^verbatim>\<open>fetch()\<close> yields the records of the file in order. Other exceptions of the reader,
  and the closing of the handle, have no counterpart in the model.
\<close>

datatype alignment_file = ValueError | Opened "alignment list"

definition filter_mapqual :: int where
  "filter_mapqual = 10"

definition count_step :: "alignment \<Rightarrow> int list \<Rightarrow> int list" where
  "count_step item count_list' =
     (let my_template_length = \<bar>template_length item\<bar> in
      if flag item AND 1 \<noteq> 0 \<and> flag item AND 64 \<noteq> 0 \<and> mapping_quality item > filter_mapqual then
        (if next_reference_id item = StrV ''='' \<or> next_reference_id item = reference_id item
         then count_list' @ [my_template_length] else count_list')
      else count_list')"

text \<open>The result is paired with the lines printed to standard output.\<close>

definition count_frags :: "alignment_file \<Rightarrow> string list \<times> (py_exc + int list)" where
  "count_frags file =
     (case file of
        ValueError \<Rightarrow> ([''File type not recognized by pysam.''], Inl (SystemExit 1))
      | Opened items \<Rightarrow> ([], Inr (sort (fold count_step items []))))"

subsection \<open>The distribution builder: \<^verbatim>\<open>compute_probs\<close>\<close>

definition FILTER_MINREADS :: int where
  "FILTER_MINREADS = 100"

definition FILTER_MEDDEV_M :: int where
  "FILTER_MEDDEV_M = 10"

text \<open>
  \<^verbatim>\<open>list(set(datalist))\<close> lists the distinct lengths in an order the language does not fix.
  The enumeration is a parameter \<open>list_set\<close> of the model, and \<open>is_list_of_set\<close> says that
  it lists each distinct element of the sequence once.
\<close>

definition is_list_of_set :: "(int list \<Rightarrow> int list) \<Rightarrow> int list \<Rightarrow> bool" where
  "is_list_of_set list_set datalist =
     (distinct (list_set datalist) \<and> set (list_set datalist) = set datalist)"

definition probs_step ::
  "int list \<Rightarrow> pynum \<Rightarrow> pynum \<Rightarrow> int \<Rightarrow> int list \<times> int list \<Rightarrow> int list \<times> int list" where
  "probs_step datalist med mad item acc =
     (case acc of (values, probabilities) \<Rightarrow>
        if py_lt (PyInt 0) (PyInt item) \<and>
           py_le (PyInt item) (py_add med (py_mul (PyInt FILTER_MEDDEV_M) mad))
        then
          (let data_count = int (count_list datalist item) in
           if data_count \<ge> FILTER_MINREADS
           then (values @ [item], probabilities @ [data_count])
           else (values, probabilities))
        else (values, probabilities))"

definition compute_probs ::
  "(int list \<Rightarrow> int list) \<Rightarrow> int list \<Rightarrow> py_exc + (int list \<times> pynum list)" where
  "compute_probs list_set datalist =
     (case median (map PyInt datalist) of
        Inl e \<Rightarrow> Inl e
      | Inr med \<Rightarrow>
          (case median_absolute_deviation (map PyInt datalist) of
             Inl e \<Rightarrow> Inl e
           | Inr mad \<Rightarrow>
               (case fold (probs_step datalist med mad) (list_set datalist) ([], []) of
                  (values, probabilities) \<Rightarrow>
                    (let count_sum = PyFloat (of_int (sum_list probabilities)) in
                     case list_comp (\<lambda>n. py_truediv (PyInt n) count_sum) probabilities of
                       Inl e \<Rightarrow> Inl e
                     | Inr probabilities' \<Rightarrow> Inr (values, probabilities')))))"

subsection \<open>The pipeline of \<^verbatim>\<open>main\<close>\<close>



text \<open>
  The test that the loop of \<^verbatim>\<open>compute_probs\<close> applies to a distinct length, with the
  comparisons carried out on the numeric values; \<open>probs_step_eq\<close> below shows that the loop
  body decides exactly this.
\<close>

abbreviation retained :: "int list \<Rightarrow> pynum \<Rightarrow> pynum \<Rightarrow> int \<Rightarrow> bool" where
  "retained datalist med mad item \<equiv>
     0 < item \<and> (of_int item :: rat) \<le> num_val med + 10 * num_val mad \<and>
     100 \<le> count_list datalist item"

section \<open>Properties\<close>

lemma py_getitem_nat:
  "i < length xs \<Longrightarrow> py_getitem xs (int i) = Inr (xs ! i)"
  by (simp add: py_getitem_def)

lemma num_val_py_add: "num_val (py_add a b) = num_val a + num_val b"
  by (cases a; cases b) simp_all


lemma num_val_py_mul: "num_val (py_mul a b) = num_val a * num_val b"
  by (cases a; cases b) simp_all


lemma median_odd:
  assumes "odd (length xs)"
  shows "median xs = Inr (xs ! (length xs div 2))"
proof -
  have "0 < length xs" using assms by (cases xs) auto
  then have "length xs div 2 < length xs" by simp
  then have "py_getitem xs (int (length xs div 2)) = Inr (xs ! (length xs div 2))"
    by (rule py_getitem_nat)
  moreover have "int (length xs) mod 2 \<noteq> 0" using assms by presburger
  ultimately show ?thesis by (simp add: median_def zdiv_int)
qed

lemma median_even:
  assumes "xs \<noteq> []" and "even (length xs)"
  shows "median xs =
    Inr (PyFloat ((num_val (xs ! (length xs div 2)) + num_val (xs ! (length xs div 2 - 1))) / 2))"
proof -
  have len: "0 < length xs" using assms(1) by simp
  have pos: "0 < length xs div 2" using len assms(2) by presburger
  have lt: "length xs div 2 < length xs" using len by simp
  have g1: "py_getitem xs (int (length xs div 2)) = Inr (xs ! (length xs div 2))"
    using lt by (rule py_getitem_nat)
  have lt1: "length xs div 2 - 1 < length xs" using lt by simp
  have e: "int (length xs) div 2 - 1 = int (length xs div 2 - 1)"
    using pos by (simp add: zdiv_int)
  have g2: "py_getitem xs (int (length xs) div 2 - 1) = Inr (xs ! (length xs div 2 - 1))"
    unfolding e using lt1 by (rule py_getitem_nat)
  have ev: "int (length xs) mod 2 = 0" using assms(2) by presburger
  show ?thesis
    using g1 g2 ev by (simp add: median_def zdiv_int py_truediv_def num_val_py_add)
qed

lemma median_empty: "median [] = Inl IndexError"
  by (simp add: median_def py_getitem_def)

lemma median_total: "xs \<noteq> [] \<Longrightarrow> \<exists>m. median xs = Inr m"
  by (cases "even (length xs)") (simp_all add: median_even median_odd)

lemma fold_append_map: "fold (\<lambda>x acc. acc @ [f x]) xs acc = acc @ map f xs"
  by (induction xs arbitrary: acc) simp_all

lemma mad_unfold:
  assumes "median datalist = Inr m"
  shows "median_absolute_deviation datalist =
           median (py_sorted (map (\<lambda>x. py_abs (py_sub x m)) datalist))"
  using assms by (simp add: median_absolute_deviation_def fold_append_map)

lemma mad_total:
  assumes "datalist \<noteq> []"
  shows "\<exists>d. median_absolute_deviation datalist = Inr d"
proof -
  obtain m where m: "median datalist = Inr m"
    using median_total [OF assms] by blast
  have "length (py_sorted (map (\<lambda>x. py_abs (py_sub x m)) datalist)) = length datalist"
    by (simp add: py_sorted_def)
  then have "py_sorted (map (\<lambda>x. py_abs (py_sub x m)) datalist) \<noteq> []"
    using assms by (metis length_0_conv)
  then show ?thesis
    unfolding mad_unfold [OF m] by (rule median_total)
qed






lemma probs_step_eq:
  "probs_step datalist med mad item (vs, ps) =
     (if retained datalist med mad item
      then (vs @ [item], ps @ [int (count_list datalist item)]) else (vs, ps))"
  by (simp add: probs_step_def py_lt_def py_le_def num_val_py_add num_val_py_mul
      FILTER_MINREADS_def FILTER_MEDDEV_M_def)

lemma fold_probs_step:
  "fold (probs_step datalist med mad) xs (vs, ps) =
     (vs @ filter (retained datalist med mad) xs,
      ps @ map (\<lambda>v. int (count_list datalist v)) (filter (retained datalist med mad) xs))"
proof (induction xs arbitrary: vs ps)
  case Nil
  show ?case by simp
next
  case (Cons x xs)
  show ?case by (simp add: probs_step_eq Cons.IH)
qed

lemma list_comp_truediv:
  assumes "num_val c \<noteq> 0"
  shows "list_comp (\<lambda>n. py_truediv (PyInt n) c) ps =
           Inr (map (\<lambda>n. PyFloat (of_int n / num_val c)) ps)"
  using assms by (induction ps) (simp_all add: py_truediv_def)

lemma sum_counts_pos:
  assumes "vs \<noteq> []" and "\<forall>v\<in>set vs. 100 \<le> count_list datalist v"
  shows "0 < sum_list (map (\<lambda>v. int (count_list datalist v)) vs)"
proof (cases vs)
  case Nil
  then show ?thesis using assms(1) by simp
next
  case (Cons a ws)
  have "0 \<le> sum_list (map (\<lambda>v. int (count_list datalist v)) ws)"
    by (rule sum_list_nonneg) auto
  moreover have "100 \<le> int (count_list datalist a)"
    using assms(2) Cons by simp
  ultimately show ?thesis using Cons by simp
qed

lemma compute_probs_eq:
  assumes med: "median (map PyInt datalist) = Inr med"
    and mad: "median_absolute_deviation (map PyInt datalist) = Inr mad"
  shows "compute_probs list_set datalist =
    Inr (filter (retained datalist med mad) (list_set datalist),
         map (\<lambda>v. PyFloat (of_int (int (count_list datalist v)) /
                of_int (sum_list (map (\<lambda>v. int (count_list datalist v))
                          (filter (retained datalist med mad) (list_set datalist))))))
           (filter (retained datalist med mad) (list_set datalist)))"
proof (cases "filter (retained datalist med mad) (list_set datalist) = []")
  case True
  then show ?thesis
    by (simp add: compute_probs_def med mad fold_probs_step)
next
  case False
  have "\<forall>v\<in>set (filter (retained datalist med mad) (list_set datalist)).
          100 \<le> count_list datalist v"
    by simp
  then have "0 < sum_list (map (\<lambda>v. int (count_list datalist v))
                 (filter (retained datalist med mad) (list_set datalist)))"
    by (rule sum_counts_pos [OF False])
  then have nz: "num_val (PyFloat (of_int (sum_list (map (\<lambda>v. int (count_list datalist v))
                 (filter (retained datalist med mad) (list_set datalist)))))) \<noteq> 0"
    by simp
  show ?thesis
    by (simp add: compute_probs_def med mad fold_probs_step list_comp_truediv [OF nz] o_def)
qed

lemma compute_probs_total:
  assumes "datalist \<noteq> []"
  shows "\<exists>med mad. median (map PyInt datalist) = Inr med \<and>
           median_absolute_deviation (map PyInt datalist) = Inr mad"
proof -
  have ne: "map PyInt datalist \<noteq> []" using assms by simp
  show ?thesis using median_total [OF ne] mad_total [OF ne] by blast
qed

lemma sum_list_divide:
  fixes c :: rat
  shows "sum_list (map (\<lambda>v. f v / c) vs) = sum_list (map f vs) / c"
  by (induction vs) (simp_all add: add_divide_distrib)

lemma compute_probs_empty: "compute_probs list_set [] = Inl IndexError"
  by (simp add: compute_probs_def median_empty)

lemma retained_in_datalist:
  assumes "100 \<le> count_list datalist v"
  shows "v \<in> set datalist"
proof (rule ccontr)
  assume "v \<notin> set datalist"
  then have "count_list datalist v = 0" by simp
  then show False using assms by simp
qed

lemma is_list_of_set_remdups: "is_list_of_set remdups xs"
  by (simp add: is_list_of_set_def)

lemma boundary_data_facts:
  "median (map PyInt (replicate 101 7 @ replicate 100 8)) = Inr (PyInt 7)"
  "median_absolute_deviation (map PyInt (replicate 101 7 @ replicate 100 8)) = Inr (PyInt 0)"
  "count_list (replicate 101 7 @ replicate 100 (8::int)) 7 = 101"
  "count_list (replicate 101 7 @ replicate 100 (8::int)) 8 = 100"
  by code_simp+

lemma compute_probs_Inr_nonempty:
  assumes "compute_probs list_set datalist = Inr r"
  shows "datalist \<noteq> []"
  using assms by (auto simp: compute_probs_empty)

lemma compute_probs_not_zero_division:
  "compute_probs list_set datalist \<noteq> Inl ZeroDivisionError"
proof (cases "datalist = []")
  case True
  then show ?thesis by (simp add: compute_probs_empty)
next
  case False
  obtain med mad where med: "median (map PyInt datalist) = Inr med"
    and mad: "median_absolute_deviation (map PyInt datalist) = Inr mad"
    using compute_probs_total [OF False] by blast
  show ?thesis unfolding compute_probs_eq [OF med mad, of list_set] by simp
qed

lemma support_data_facts:
  "compute_probs remdups (replicate 100 7 @ replicate 150 8) =
     Inr ([7, 8], [PyFloat (2 / 5), PyFloat (3 / 5)])"
  by code_simp

lemma small_data_facts:
  "median (map PyInt [1, 2, 3]) = Inr (PyInt 2)"
  "median_absolute_deviation (map PyInt [1, 2, 3]) = Inr (PyInt 1)"
  by (simp_all add: median_absolute_deviation_def median_def py_getitem_def py_sorted_def)

lemma and_1_bit: "(f AND 1 \<noteq> 0) = bit (f::int) 0"
  by (simp add: and_one_eq bit_0 mod_2_eq_odd)

lemma and_64_bit: "(f AND 64 \<noteq> 0) = bit (f::int) 6"
proof -
  have "(64::int) = 2 ^ 6" by simp
  then show ?thesis by (simp only: and_exp_eq_0_iff_not_bit not_not)
qed

lemma count_step_eq:
  "count_step item acc =
     (if bit (flag item) 0 \<and> bit (flag item) 6 \<and> 10 < mapping_quality item \<and>
         (next_reference_id item = StrV ''='' \<or> next_reference_id item = reference_id item)
      then acc @ [\<bar>template_length item\<bar>] else acc)"
  by (simp add: count_step_def filter_mapqual_def and_1_bit and_64_bit)

lemma fold_cond_append:
  "fold (\<lambda>x acc. if P x then acc @ [f x] else acc) xs acc = acc @ map f (filter P xs)"
  by (induction xs arbitrary: acc) simp_all

lemma fold_count_step:
  "fold count_step items acc =
     acc @ map (\<lambda>item. \<bar>template_length item\<bar>)
       (filter (\<lambda>item. bit (flag item) 0 \<and> bit (flag item) 6 \<and> 10 < mapping_quality item \<and>
                  (next_reference_id item = StrV ''='' \<or>
                   next_reference_id item = reference_id item)) items)"
proof -
  have eq: "count_step =
     (\<lambda>item acc.
        if bit (flag item) 0 \<and> bit (flag item) 6 \<and> 10 < mapping_quality item \<and>
           (next_reference_id item = StrV ''='' \<or> next_reference_id item = reference_id item)
        then acc @ [\<bar>template_length item\<bar>] else acc)"
    by (intro ext) (rule count_step_eq)
  show ?thesis
    by (subst eq) (rule fold_cond_append)
qed


subsection \<open>Median\<close>

text \<open>
  Claim C2. On a non-empty sequence \<^verbatim>\<open>median\<close> returns the element at index
  \<open>length div 2\<close> when the length is odd, and when it is even the float that is half the
  sum of the elements at \<open>length div 2\<close> and \<open>length div 2 - 1\<close>. A singleton keeps its
  element as it is: \<^verbatim>\<open>median([2])\<close> is the int 2, and
  \<^verbatim>\<open>median([1,2,4,6,8,12,14,15,17,21])\<close> is the float 10.0. Sortedness of the input plays
  no part in which positions are read, so the statement holds for every non-empty sequence.
\<close>
theorem median_middle_or_average:
  "(datalist \<noteq> [] \<longrightarrow>
      median datalist =
        Inr (if odd (length datalist) then datalist ! (length datalist div 2)
             else PyFloat ((num_val (datalist ! (length datalist div 2)) +
                            num_val (datalist ! (length datalist div 2 - 1))) / 2))) \<and>
   median [PyInt 2] = Inr (PyInt 2) \<and>
   median (map PyInt [1, 2, 4, 6, 8, 12, 14, 15, 17, 21]) = Inr (PyFloat 10)"
proof (intro conjI impI)
  assume "datalist \<noteq> []"
  then show "median datalist =
        Inr (if odd (length datalist) then datalist ! (length datalist div 2)
             else PyFloat ((num_val (datalist ! (length datalist div 2)) +
                            num_val (datalist ! (length datalist div 2 - 1))) / 2))"
    by (cases "even (length datalist)") (simp_all add: median_even median_odd)
next
  show "median [PyInt 2] = Inr (PyInt 2)"
    by (simp add: median_def py_getitem_def)
next
  show "median (map PyInt [1, 2, 4, 6, 8, 12, 14, 15, 17, 21]) = Inr (PyFloat 10)"
    by (simp add: median_def py_getitem_def py_truediv_def)
qed

theorem median_middle_or_average_witness:
  "[PyInt 1, PyInt 3, PyInt 8] \<noteq> [] \<and> median [PyInt 1, PyInt 3, PyInt 8] = Inr (PyInt 3) \<and>
   [PyInt 1, PyInt 3] \<noteq> [] \<and> median [PyInt 1, PyInt 3] = Inr (PyFloat 2)"
  using median_middle_or_average [of "[PyInt 1, PyInt 3, PyInt 8]"]
    median_middle_or_average [of "[PyInt 1, PyInt 3]"]
  by simp



subsection \<open>Median absolute deviation\<close>



subsection \<open>The distribution builder\<close>

text \<open>
  Claim C1. For a non-empty length sequence, \<^verbatim>\<open>compute_probs\<close> returns, and a length
  \<open>v\<close> is among the returned values exactly when \<open>0 < v\<close>, \<open>v\<close> is at most
  \<open>median + 10 * MAD\<close> of the sequence and \<open>v\<close> occurs at least 100 times in it. In particular
  a length equal to \<open>median + 10 * MAD\<close> that is positive and has the support is retained, and a
  length one unit above the bound never is.
\<close>

theorem compute_probs_retains_iff:
  assumes "datalist \<noteq> []" and "is_list_of_set list_set datalist"
  shows "\<exists>values probabilities med mad.
           compute_probs list_set datalist = Inr (values, probabilities) \<and>
           median (map PyInt datalist) = Inr med \<and>
           median_absolute_deviation (map PyInt datalist) = Inr mad \<and>
           (\<forall>v. v \<in> set values \<longleftrightarrow>
                  0 < v \<and> of_int v \<le> num_val med + 10 * num_val mad \<and>
                  100 \<le> count_list datalist v) \<and>
           (\<forall>v. of_int v = num_val med + 10 * num_val mad \<and> 0 < v \<and>
                  100 \<le> count_list datalist v \<longrightarrow> v \<in> set values) \<and>
           (\<forall>v. of_int v = num_val med + 10 * num_val mad + 1 \<longrightarrow> v \<notin> set values)"
proof -
  obtain med mad where med: "median (map PyInt datalist) = Inr med"
    and mad: "median_absolute_deviation (map PyInt datalist) = Inr mad"
    using compute_probs_total [OF assms(1)] by blast
  let ?vs = "filter (retained datalist med mad) (list_set datalist)"
  have set_eq: "set (list_set datalist) = set datalist"
    using assms(2) by (simp add: is_list_of_set_def)
  have iff: "v \<in> set ?vs \<longleftrightarrow> retained datalist med mad v" for v
    using set_eq retained_in_datalist [of datalist v] by auto
  have eq: "\<exists>probabilities. compute_probs list_set datalist = Inr (?vs, probabilities)"
    using compute_probs_eq [OF med mad, of list_set] by blast
  have a: "\<forall>v. v \<in> set ?vs \<longleftrightarrow>
                  0 < v \<and> of_int v \<le> num_val med + 10 * num_val mad \<and>
                  100 \<le> count_list datalist v"
    using iff by blast
  have b: "\<forall>v. of_int v = num_val med + 10 * num_val mad \<and> 0 < v \<and>
                  100 \<le> count_list datalist v \<longrightarrow> v \<in> set ?vs"
    using iff by simp
  have c: "\<forall>v. of_int v = num_val med + 10 * num_val mad + 1 \<longrightarrow> v \<notin> set ?vs"
    using iff by simp
  show ?thesis using eq med mad a b c by blast
qed

theorem compute_probs_retains_iff_witness:
  "replicate 101 7 @ replicate 100 (8::int) \<noteq> [] \<and>
   is_list_of_set remdups (replicate 101 7 @ replicate 100 8) \<and>
   (\<exists>values probabilities.
      compute_probs remdups (replicate 101 7 @ replicate 100 8) = Inr (values, probabilities) \<and>
      7 \<in> set values \<and> 8 \<notin> set values)"
proof -
  let ?D = "replicate 101 7 @ replicate 100 (8::int)"
  have h1: "?D \<noteq> []" by simp
  have h2: "is_list_of_set remdups ?D" by (rule is_list_of_set_remdups)
  obtain vs ps med mad where
    r: "compute_probs remdups ?D = Inr (vs, ps)"
    and med: "median (map PyInt ?D) = Inr med"
    and mad: "median_absolute_deviation (map PyInt ?D) = Inr mad"
    and iff: "\<forall>v. v \<in> set vs \<longleftrightarrow>
                  0 < v \<and> of_int v \<le> num_val med + 10 * num_val mad \<and> 100 \<le> count_list ?D v"
    and above: "\<forall>v. of_int v = num_val med + 10 * num_val mad + 1 \<longrightarrow> v \<notin> set vs"
    using compute_probs_retains_iff [OF h1 h2] by blast
  have m: "med = PyInt 7" "mad = PyInt 0"
    using med mad boundary_data_facts(1,2) by simp_all
  have "7 \<in> set vs"
    using iff m boundary_data_facts(3) by simp
  moreover have "8 \<notin> set vs"
    using above m by simp
  ultimately show ?thesis using h1 h2 r by blast
qed



text \<open>
  Claim C4. Whenever \<^verbatim>\<open>compute_probs\<close> returns a non-empty list of values (the input is
  then non-empty), each probability is the occurrence count of its value divided by the sum
  of the counts of all returned values, and the probabilities add up to exactly 1. Floats
  are the rationals they denote here, so the sum is exact.
\<close>

theorem compute_probs_sum_one:
  assumes "compute_probs list_set datalist = Inr (values, probabilities)"
    and "values \<noteq> []"
  shows "datalist \<noteq> [] \<and>
         sum_list (map num_val probabilities) = 1 \<and>
         probabilities =
           map (\<lambda>v. PyFloat (of_int (int (count_list datalist v)) /
                      of_int (sum_list (map (\<lambda>w. int (count_list datalist w)) values)))) values"
proof -
  have ne: "datalist \<noteq> []"
    using assms(1) by (rule compute_probs_Inr_nonempty)
  obtain med mad where med: "median (map PyInt datalist) = Inr med"
    and mad: "median_absolute_deviation (map PyInt datalist) = Inr mad"
    using compute_probs_total [OF ne] by blast
  let ?vs = "filter (retained datalist med mad) (list_set datalist)"
  let ?S = "sum_list (map (\<lambda>w. int (count_list datalist w)) values)"
  have v: "values = ?vs"
    and p: "probabilities =
      map (\<lambda>v. PyFloat (of_int (int (count_list datalist v)) /
             of_int (sum_list (map (\<lambda>v. int (count_list datalist v)) ?vs)))) ?vs"
    using assms(1) unfolding compute_probs_eq [OF med mad, of list_set] by auto
  have p': "probabilities =
      map (\<lambda>v. PyFloat (of_int (int (count_list datalist v)) / of_int ?S)) values"
    using p unfolding v [symmetric] .
  have "\<forall>v\<in>set values. 100 \<le> count_list datalist v"
    unfolding v by simp
  then have pos: "0 < ?S"
    by (rule sum_counts_pos [OF assms(2)])
  have "sum_list (map num_val probabilities) =
          sum_list (map (\<lambda>v. of_int (int (count_list datalist v)) / (of_int ?S :: rat)) values)"
    unfolding p' by (simp add: o_def)
  also have "\<dots> = sum_list (map (\<lambda>v. (of_int (int (count_list datalist v)) :: rat)) values) / of_int ?S"
    by (rule sum_list_divide)
  also have "sum_list (map (\<lambda>v. (of_int (int (count_list datalist v)) :: rat)) values) = of_int ?S"
    by (induction "values") simp_all
  also have "(of_int ?S :: rat) / of_int ?S = 1"
    using pos by simp
  finally show ?thesis using ne p' by simp
qed

theorem compute_probs_sum_one_witness:
  "compute_probs remdups (replicate 100 7 @ replicate 150 8) =
     Inr ([7, 8], [PyFloat (2 / 5), PyFloat (3 / 5)]) \<and>
   [7, 8 :: int] \<noteq> [] \<and>
   sum_list (map num_val [PyFloat (2 / 5), PyFloat (3 / 5)]) = 1"
proof -
  have h2: "[7, 8 :: int] \<noteq> []" by simp
  show ?thesis
    using compute_probs_sum_one [OF support_data_facts h2] support_data_facts h2 by blast
qed

text \<open>
  Claim C5. When no length of a (necessarily non-empty) sequence is positive, within
  \<open>median + 10 * MAD\<close> and supported by at least 100 occurrences, \<^verbatim>\<open>compute_probs\<close> returns
  the pair of empty lists: the comprehension that divides by the sum has no element to
  divide. On no input at all does \<^verbatim>\<open>compute_probs\<close> end in a division by zero.
\<close>

theorem compute_probs_empty_distribution:
  assumes "is_list_of_set list_set datalist"
    and "median (map PyInt datalist) = Inr med"
    and "median_absolute_deviation (map PyInt datalist) = Inr mad"
    and "\<forall>v\<in>set datalist.
           \<not> (0 < v \<and> of_int v \<le> num_val med + 10 * num_val mad \<and>
              100 \<le> count_list datalist v)"
  shows "datalist \<noteq> [] \<and>
         compute_probs list_set datalist = Inr ([], []) \<and>
         (\<forall>ls dl. compute_probs ls dl \<noteq> Inl ZeroDivisionError)"
proof -
  have "datalist \<noteq> []"
    using assms(2) by (auto simp: median_empty)
  moreover have "filter (retained datalist med mad) (list_set datalist) = []"
    using assms(1,4) by (auto simp: is_list_of_set_def filter_empty_conv)
  then have "compute_probs list_set datalist = Inr ([], [])"
    unfolding compute_probs_eq [OF assms(2,3), of list_set] by simp
  ultimately show ?thesis
    using compute_probs_not_zero_division by blast
qed

theorem compute_probs_empty_distribution_witness:
  "is_list_of_set remdups [1, 2, 3] \<and>
   median (map PyInt [1, 2, 3]) = Inr (PyInt 2) \<and>
   median_absolute_deviation (map PyInt [1, 2, 3]) = Inr (PyInt 1) \<and>
   count_list [1, 2, 3 :: int] 1 = 1 \<and> count_list [1, 2, 3 :: int] 2 = 1 \<and>
   count_list [1, 2, 3 :: int] 3 = 1 \<and>
   compute_probs remdups [1, 2, 3] = Inr ([], [])"
proof -
  have h4: "\<forall>v\<in>set [1, 2, 3 :: int].
      \<not> (0 < v \<and> of_int v \<le> num_val (PyInt 2) + 10 * num_val (PyInt 1) \<and>
         100 \<le> count_list [1, 2, 3] v)"
    by simp
  show ?thesis
    using compute_probs_empty_distribution
      [OF is_list_of_set_remdups small_data_facts(1) small_data_facts(2) h4]
      is_list_of_set_remdups [of "[1, 2, 3]"] small_data_facts
    by simp
qed

text \<open>
  Claim C10. On the empty sequence \<^verbatim>\<open>median\<close> fails with an \<^verbatim>\<open>IndexError\<close> at
  \<^verbatim>\<open>datalist[midpoint]\<close>, so \<^verbatim>\<open>compute_probs\<close> fails on it too; a returned pair of empty
  lists therefore always comes from a non-empty sequence.
\<close>

theorem empty_sequence_fails:
  "median [] = Inl IndexError \<and>
   compute_probs list_set [] = Inl IndexError \<and>
   (compute_probs list_set datalist = Inr ([], []) \<longrightarrow> datalist \<noteq> [])"
  using compute_probs_Inr_nonempty [of list_set datalist "([], [])"]
  by (simp add: median_empty compute_probs_empty)

theorem empty_sequence_fails_witness:
  "compute_probs remdups [1, 2, 3] = Inr ([], []) \<and> [1, 2, 3 :: int] \<noteq> []"
proof -
  have "compute_probs remdups [1, 2, 3] = Inr ([], [])" by code_simp
  then show ?thesis
    using empty_sequence_fails [of remdups "[1, 2, 3]"] by blast
qed

subsection \<open>The record filter\<close>

text \<open>
  Claim C6. For every stream of alignment records, \<^verbatim>\<open>count_frags\<close> returns, in ascending
  order, the absolute template lengths of exactly the records whose flag has the paired bit
  (bit 0, value 1) and the first-in-pair bit (bit 6, value 64) set, whose mapping quality
  is greater than 10, and whose \<^verbatim>\<open>next_reference_id\<close> is the string \<^verbatim>\<open>'='\<close> or equals
  \<^verbatim>\<open>reference_id\<close>. Every other record contributes nothing, and nothing is printed.
\<close>

theorem count_frags_sorted_qualifying:
  "count_frags (Opened items) =
     ([], Inr (sort (map (\<lambda>item. \<bar>template_length item\<bar>)
       (filter (\<lambda>item. bit (flag item) 0 \<and> bit (flag item) 6 \<and> 10 < mapping_quality item \<and>
                  (next_reference_id item = StrV ''='' \<or>
                   next_reference_id item = reference_id item)) items)))) \<and>
   (\<exists>lens. snd (count_frags (Opened items)) = Inr lens \<and> sorted lens)"
  by (simp add: count_frags_def fold_count_step)

theorem count_frags_sorted_qualifying_example:
  "count_frags (Opened
     [\<lparr>flag = 99, mapping_quality = 60, reference_id = IntV 0, next_reference_id = IntV 0,
        template_length = - 300\<rparr>,
      \<lparr>flag = 147, mapping_quality = 60, reference_id = IntV 0, next_reference_id = IntV 0,
        template_length = 300\<rparr>,
      \<lparr>flag = 99, mapping_quality = 10, reference_id = IntV 0, next_reference_id = IntV 0,
        template_length = 250\<rparr>,
      \<lparr>flag = 99, mapping_quality = 60, reference_id = IntV 0, next_reference_id = IntV 1,
        template_length = 400\<rparr>,
      \<lparr>flag = 64, mapping_quality = 60, reference_id = IntV 0, next_reference_id = IntV 0,
        template_length = 500\<rparr>,
      \<lparr>flag = 65, mapping_quality = 11, reference_id = IntV 2, next_reference_id = StrV ''='',
        template_length = 150\<rparr>]) = ([], Inr [150, 300])"
  using count_frags_sorted_qualifying [of
     "[\<lparr>flag = 99, mapping_quality = 60, reference_id = IntV 0, next_reference_id = IntV 0,
        template_length = - 300\<rparr>,
      \<lparr>flag = 147, mapping_quality = 60, reference_id = IntV 0, next_reference_id = IntV 0,
        template_length = 300\<rparr>,
      \<lparr>flag = 99, mapping_quality = 10, reference_id = IntV 0, next_reference_id = IntV 0,
        template_length = 250\<rparr>,
      \<lparr>flag = 99, mapping_quality = 60, reference_id = IntV 0, next_reference_id = IntV 1,
        template_length = 400\<rparr>,
      \<lparr>flag = 64, mapping_quality = 60, reference_id = IntV 0, next_reference_id = IntV 0,
        template_length = 500\<rparr>,
      \<lparr>flag = 65, mapping_quality = 11, reference_id = IntV 2, next_reference_id = StrV ''='',
        template_length = 150\<rparr>]"]
  by simp

subsection \<open>Failure paths of the pipeline\<close>




end
